theory Spec2Isabelle
  imports Complex_Main
begin

section \<open>Conventions of the embedding\<close>

text \<open>
  Two scripts are modelled: the lattice pricer
  (\<^verbatim>\<open>Hull_and_white_rate_options_pricer.py\<close>: \<^verbatim>\<open>build_rate_tree\<close>,
  \<^verbatim>\<open>price_option\<close>) and the Monte Carlo pricer
  (\<^verbatim>\<open>montecarlo_pricer_v1.py\<close>: \<^verbatim>\<open>paths_anti\<close>, \<^verbatim>\<open>paths_con\<close>).

  Python floats are idealised as the reals: rounding, overflow, infinities and NaN are
  not represented. Where numpy continues with a NaN (the square root of a negative
  time step, the mean of an empty array, a covariance of fewer than two observations,
  a quotient 0/0) the model follows the total functions of HOL instead: no inequality
  below rests on a value computed there, and an equation that covers such a run has NaN
  on both of its sides in numpy.
  Python integers are \<open>int\<close>; an exception raised by the source is a value
  \<open>Inl e\<close> of the result. A numpy array of two dimensions is a list of rows, and an
  assignment \<^verbatim>\<open>m[i][j] = v\<close> is \<open>set2 m i j v\<close>. Every subscript the source
  evaluates on a run that raises nothing is in range, so the out-of-range behaviour of
  \<open>!\<close> and of list update is never reached.
\<close>

datatype py_error = ZeroDivisionError | ValueError | IndexError

definition set2 :: "real list list \<Rightarrow> nat \<Rightarrow> nat \<Rightarrow> real \<Rightarrow> real list list" where
  "set2 m i j v = m[i := (m ! i)[j := v]]"

definition zeros :: "nat \<Rightarrow> nat \<Rightarrow> real list list" where
  \<comment> \<open>\<^verbatim>\<open>np.zeros((rows, cols))\<close>\<close>
  "zeros rows cols = replicate rows (replicate cols 0)"

definition shape :: "nat \<Rightarrow> nat \<Rightarrow> real list list \<Rightarrow> bool" where
  \<comment> \<open>\<open>m\<close> has \<open>rows\<close> rows of \<open>cols\<close> entries each\<close>
  "shape rows cols m \<longleftrightarrow> length m = rows \<and> (\<forall>i < rows. length (m ! i) = cols)"

section \<open>The lattice pricer\<close>

text \<open>
  \<^verbatim>\<open>build_rate_tree(r0, a, sigma, T, N)\<close>. The division \<^verbatim>\<open>T / N\<close> of a float by
  the integer zero raises; for a negative \<open>N\<close> both ranges are empty and the tree is
  the empty list. The parameter \<open>a\<close> is accepted and never read.
\<close>

definition build_rate_tree ::
  "real \<Rightarrow> real \<Rightarrow> real \<Rightarrow> real \<Rightarrow> int \<Rightarrow> py_error + (real list list \<times> real \<times> real)" where
  "build_rate_tree r0 a sigma T N =
     (if N = 0 then Inl ZeroDivisionError
      else
        let dt = T / real_of_int N;
            dx = sigma * sqrt dt;
            tree = map (\<lambda>i. map (\<lambda>j. r0 + real_of_int (2 * int j - int i) * dx) [0..<i + 1])
                       [0..<nat (N + 1)]
        in Inr (tree, dt, dx))"

text \<open>
  The barrier test of \<^verbatim>\<open>price_option\<close>, written twice in the source (at the terminal
  nodes and at the interior nodes) with the same text: \<open>knocked\<close> holds when the
  source overwrites the node's value with 0. A barrier type that is none of the four
  names leaves the value alone.
\<close>

definition knocked :: "bool \<Rightarrow> string option \<Rightarrow> real \<Rightarrow> real \<Rightarrow> bool" where
  "knocked is_barrier barrier_type barrier r =
     (if is_barrier \<and> barrier_type \<noteq> None then
        (if barrier_type \<in> {Some ''Down In'', Some ''Up In''} then
           \<not> (if barrier_type = Some ''Down In'' then r \<le> barrier else r \<ge> barrier)
         else if barrier_type \<in> {Some ''Down Out'', Some ''Up Out''} then
           (if barrier_type = Some ''Down Out'' then r \<le> barrier else r \<ge> barrier)
         else False)
      else False)"

text \<open>The body of the terminal loop, lines 48 to 57, for one state \<open>j\<close>.\<close>

definition terminal_node ::
  "real list list \<Rightarrow> nat \<Rightarrow> real \<Rightarrow> string option \<Rightarrow> real \<Rightarrow> bool \<Rightarrow> bool \<Rightarrow>
   nat \<Rightarrow> real list list \<Rightarrow> real list list" where
  "terminal_node tree N strike barrier_type barrier is_barrier is_call j option_values =
     (let r = tree ! N ! j;
          intrinsic = (if is_call then r - strike else strike - r);
          option_values1 = set2 option_values N j (max intrinsic 0)
      in if knocked is_barrier barrier_type barrier r
         then set2 option_values1 N j 0 else option_values1)"

text \<open>The body of the backward loop, lines 62 to 76, for one node \<open>(i, j)\<close>.\<close>

definition interior_node ::
  "real list list \<Rightarrow> real \<Rightarrow> real \<Rightarrow> string option \<Rightarrow> real \<Rightarrow> bool \<Rightarrow> bool \<Rightarrow> bool \<Rightarrow>
   nat \<Rightarrow> nat \<Rightarrow> real list list \<Rightarrow> real list list" where
  "interior_node tree dt strike barrier_type barrier is_barrier is_bermudan is_call i j option_values =
     (let p = 1 / 2;
          disc = exp (- (tree ! i ! j) * dt);
          continuation = disc * (p * (option_values ! (i + 1) ! (j + 1))
                                 + (1 - p) * (option_values ! (i + 1) ! j));
          option_values1 =
            (if is_bermudan then
               let intrinsic = (if is_call then tree ! i ! j - strike else strike - tree ! i ! j);
                   intrinsic1 = max intrinsic 0
               in set2 option_values i j (max continuation intrinsic1)
             else set2 option_values i j continuation)
      in if knocked is_barrier barrier_type barrier (tree ! i ! j)
         then set2 option_values1 i j 0 else option_values1)"

text \<open>
  \<^verbatim>\<open>price_option\<close>. After the tree is built, \<^verbatim>\<open>np.zeros((N + 1, N + 1))\<close> raises
  ValueError for a negative dimension, and for \<open>N = -1\<close> the final read
  \<^verbatim>\<open>option_values[0][0]\<close> of an empty array raises IndexError. The backward loop
  \<^verbatim>\<open>range(N - 1, -1, -1)\<close> visits \<open>N - 1, \<dots>, 0\<close>. The parameter
  \<open>option_type\<close> is accepted and never read.
\<close>

definition price_option ::
  "real \<Rightarrow> real \<Rightarrow> real \<Rightarrow> real \<Rightarrow> int \<Rightarrow> string \<Rightarrow> real \<Rightarrow> string option \<Rightarrow> real \<Rightarrow>
   bool \<Rightarrow> bool \<Rightarrow> bool \<Rightarrow> py_error + real" where
  "price_option r0 a sigma T N option_type strike barrier_type barrier is_barrier is_bermudan is_call =
     (case build_rate_tree r0 a sigma T N of
        Inl e \<Rightarrow> Inl e
      | Inr (tree, dt, dx) \<Rightarrow>
          if N + 1 < 0 then Inl ValueError
          else
            let n = nat N;
                option_values0 = zeros (nat (N + 1)) (nat (N + 1));
                option_values1 =
                  fold (terminal_node tree n strike barrier_type barrier is_barrier is_call)
                       [0..<nat (N + 1)] option_values0;
                option_values2 =
                  fold (\<lambda>i. fold (interior_node tree dt strike barrier_type barrier
                                     is_barrier is_bermudan is_call i) [0..<i + 1])
                       (rev [0..<nat N]) option_values1
            in if N + 1 = 0 then Inl IndexError else Inr (option_values2 ! 0 ! 0))"

subsection \<open>The value of a node, as a recursion on the distance to maturity\<close>

definition payoff :: "bool \<Rightarrow> real \<Rightarrow> real \<Rightarrow> real" where
  "payoff is_call strike r = max (if is_call then r - strike else strike - r) 0"

definition node_rate :: "real \<Rightarrow> real \<Rightarrow> nat \<Rightarrow> nat \<Rightarrow> real" where
  "node_rate r0 dx i j = r0 + real_of_int (2 * int j - int i) * dx"

text \<open>
  \<open>lattice_value rt dt strike kn berm call N d j\<close> is the value that the two loops
  leave at node \<open>(N - d, j)\<close>, for a rate function \<open>rt\<close> and a barrier test
  \<open>kn\<close>; \<open>price_option_eq\<close> below proves that the loops compute it.
\<close>

fun lattice_value ::
  "(nat \<Rightarrow> nat \<Rightarrow> real) \<Rightarrow> real \<Rightarrow> real \<Rightarrow> (real \<Rightarrow> bool) \<Rightarrow> bool \<Rightarrow> bool \<Rightarrow>
   nat \<Rightarrow> nat \<Rightarrow> nat \<Rightarrow> real" where
  "lattice_value rt dt strike kn berm call N 0 j =
     (if kn (rt N j) then 0 else payoff call strike (rt N j))"
| "lattice_value rt dt strike kn berm call N (Suc d) j =
     (let i = N - Suc d;
          cont = exp (- rt i j * dt)
                 * (1 / 2 * lattice_value rt dt strike kn berm call N d (j + 1)
                    + (1 - 1 / 2) * lattice_value rt dt strike kn berm call N d j)
      in if kn (rt i j) then 0
         else if berm then max cont (payoff call strike (rt i j)) else cont)"

text \<open>
  The shape of the value grid, and the statement that its rows \<open>N - d, \<dots>, N\<close> hold
  the node values: the invariant of the backward loop.
\<close>

definition grid_ok :: "nat \<Rightarrow> real list list \<Rightarrow> bool" where
  "grid_ok N ov \<longleftrightarrow> length ov = N + 1 \<and> (\<forall>k \<le> N. length (ov ! k) = N + 1)"

definition grid_done ::
  "(nat \<Rightarrow> nat \<Rightarrow> real) \<Rightarrow> real \<Rightarrow> real \<Rightarrow> (real \<Rightarrow> bool) \<Rightarrow> bool \<Rightarrow> bool \<Rightarrow>
   nat \<Rightarrow> nat \<Rightarrow> real list list \<Rightarrow> bool" where
  "grid_done rt dt strike kn berm call N d ov \<longleftrightarrow>
     grid_ok N ov \<and>
     (\<forall>i j. N - d \<le> i \<and> i \<le> N \<and> j \<le> i \<longrightarrow>
        ov ! i ! j = lattice_value rt dt strike kn berm call N (N - i) j)"

section \<open>The Monte Carlo pricer\<close>

text \<open>
  Both simulators read the strike \<open>K\<close> from a module-level variable; it is the first
  argument here. The calls of \<^verbatim>\<open>np.random.normal()\<close> are the sequence \<open>Z\<close>: the
  \<open>k\<close>-th call of a run returns \<open>Z k\<close>, and the state of a loop carries the number
  of draws made so far beside the path matrix.
\<close>

definition draws_of :: "real list \<Rightarrow> nat \<Rightarrow> real" where
  \<comment> \<open>the draw sequence that starts with the listed values and goes on with 0\<close>
  "draws_of zs k = (if k < length zs then zs ! k else 0)"

definition np_mean :: "real list \<Rightarrow> real" where
  "np_mean xs = sum_list xs / real (length xs)"

definition col_index :: "nat \<Rightarrow> int \<Rightarrow> nat" where
  \<comment> \<open>a subscript \<open>k\<close> on an axis of length \<open>n\<close>: a negative one counts from the end\<close>
  "col_index n k = nat (if k < 0 then int n + k else k)"

definition payoffs_of :: "real \<Rightarrow> real \<Rightarrow> real list list \<Rightarrow> real list" where
  \<comment> \<open>\<^verbatim>\<open>np.maximum(option*(paths[-1,:]-K), 0)\<close>\<close>
  "payoffs_of K option paths = map (\<lambda>x. max (option * (x - K)) 0) (last paths)"

subsection \<open>\<^verbatim>\<open>paths_anti\<close>\<close>

text \<open>
  The loop header is \<^verbatim>\<open>range(Nsim+1//2)\<close>: the floor division binds tighter than
  the sum, so the bound is \<open>Nsim + (1 div 2)\<close>.
\<close>

definition anti_range :: "int \<Rightarrow> nat list" where
  "anti_range Nsim = [0..<nat (Nsim + (1 div 2))]"

text \<open>The body of the inner loop, lines 25 to 27, for path \<open>j\<close> and time step \<open>i\<close>.\<close>

definition anti_step ::
  "real \<Rightarrow> real \<Rightarrow> real \<Rightarrow> (nat \<Rightarrow> real) \<Rightarrow> nat \<Rightarrow> nat \<Rightarrow> nat \<Rightarrow>
   real list list \<times> nat \<Rightarrow> real list list \<times> nat" where
  "anti_step dt r sigma Z Nsim j i st =
     (case st of (paths, k) \<Rightarrow>
        let random = Z k;
            paths1 = set2 paths (i + 1) j
                       (paths ! i ! j
                        * exp (dt * (r - 1 / 2 * sigma ^ 2) + sigma * sqrt dt * random));
            mj = col_index Nsim (- int j);
            paths2 = set2 paths1 (i + 1) mj
                       (paths1 ! i ! mj
                        * exp (dt * (r - 1 / 2 * sigma ^ 2) - sigma * sqrt dt * random))
        in (paths2, k + 1))"

text \<open>
  \<^verbatim>\<open>paths_anti\<close>. \<^verbatim>\<open>T / Nsteps\<close> raises for \<open>Nsteps = 0\<close>, \<^verbatim>\<open>np.zeros\<close> raises
  ValueError for a negative dimension, and \<^verbatim>\<open>paths[0,:] = S\<close> raises IndexError on an
  array without rows.
\<close>

definition paths_anti ::
  "real \<Rightarrow> real \<Rightarrow> real \<Rightarrow> real \<Rightarrow> real \<Rightarrow> real \<Rightarrow> int \<Rightarrow> int \<Rightarrow> (nat \<Rightarrow> real) \<Rightarrow>
   py_error + (real list list \<times> real)" where
  "paths_anti K option S r sigma T Nsteps Nsim Z =
     (if Nsteps = 0 then Inl ZeroDivisionError
      else if Nsteps + 1 < 0 \<or> Nsim < 0 then Inl ValueError
      else if Nsteps + 1 = 0 then Inl IndexError
      else
        let dt = T / real_of_int Nsteps;
            paths0 = (zeros (nat (Nsteps + 1)) (nat Nsim))[0 := replicate (nat Nsim) S];
            paths = fst (fold (\<lambda>j. fold (anti_step dt r sigma Z (nat Nsim) j) [0..<nat Nsteps])
                              (anti_range Nsim) (paths0, 0));
            payoffs = payoffs_of K option paths;
            mean = exp (- r * T) * np_mean payoffs
        in Inr (paths, mean))"

subsection \<open>\<^verbatim>\<open>paths_con\<close>\<close>

text \<open>The body of both inner loops of \<^verbatim>\<open>paths_con\<close>, lines 43 to 44 and 53 to 54.\<close>

definition con_step ::
  "real \<Rightarrow> real \<Rightarrow> real \<Rightarrow> (nat \<Rightarrow> real) \<Rightarrow> nat \<Rightarrow> nat \<Rightarrow>
   real list list \<times> nat \<Rightarrow> real list list \<times> nat" where
  "con_step dt r sigma Z j i st =
     (case st of (paths, k) \<Rightarrow>
        let random = Z k
        in (set2 paths (i + 1) j
              (paths ! i ! j * exp (dt * (r - 1 / 2 * sigma ^ 2) + sigma * sqrt dt * random)),
            k + 1))"

definition con_loop ::
  "real \<Rightarrow> real \<Rightarrow> real \<Rightarrow> (nat \<Rightarrow> real) \<Rightarrow> nat \<Rightarrow> nat \<Rightarrow>
   real list list \<times> nat \<Rightarrow> real list list \<times> nat" where
  "con_loop dt r sigma Z Nsteps cols st =
     fold (\<lambda>j. fold (con_step dt r sigma Z j) [0..<Nsteps]) [0..<cols] st"

text \<open>
  \<^verbatim>\<open>np.cov(X)[a, b]\<close> for a matrix whose rows are the variables and whose columns are
  the observations: the products of the deviations from the row means, summed and
  divided by the number of observations less one.
\<close>

definition np_cov_entry :: "real list list \<Rightarrow> nat \<Rightarrow> nat \<Rightarrow> real" where
  "np_cov_entry X a b =
     (let n = length (X ! a);
          ma = np_mean (X ! a);
          mb = np_mean (X ! b)
      in (\<Sum>k\<leftarrow>[0..<n]. (X ! a ! k - ma) * (X ! b ! k - mb)) / real (n - 1))"

text \<open>
  Lines 45 to 48: the coefficient from the auxiliary paths. \<^verbatim>\<open>np.cov(paths_1, payoffs_1)\<close>
  appends the payoffs to the rows of \<open>paths_1\<close> as one more variable; the entry read
  is \<open>[1, 0]\<close>.
\<close>

definition control_coeff ::
  "real \<Rightarrow> real \<Rightarrow> real \<Rightarrow> real \<Rightarrow> real \<Rightarrow> real \<Rightarrow> real list list \<Rightarrow> real" where
  "control_coeff K option S r sigma T paths_1 =
     (let payoffs_1 = payoffs_of K option paths_1;
          cov = np_cov_entry (paths_1 @ [payoffs_1]) 1 0;
          var_z = S ^ 2 * exp (2 * r * T) * (exp (T * sigma ^ 2) - 1);
          c = - cov / var_z
      in c)"

text \<open>Lines 49, 56 and 57: the returned mean, from the coefficient and the pricing paths.\<close>

definition control_mean ::
  "real \<Rightarrow> real \<Rightarrow> real \<Rightarrow> real \<Rightarrow> real \<Rightarrow> real \<Rightarrow> real list list \<Rightarrow> real" where
  "control_mean c K option S r T paths_2 =
     (let exp_z = S * exp (r * T);
          payoffs_2 = map (\<lambda>x. x * exp (- r * T)) (payoffs_of K option paths_2);
          mean = np_mean (map (\<lambda>x. x + c * (S - exp_z)) payoffs_2)
      in mean)"

text \<open>
  The state after the first loop of a run (lines 35 to 44: the auxiliary paths and the
  number of draws made), the coefficient \<open>c\<close> of a run (lines 45 to 48), and the
  pricing stage of a run whose coefficient is \<open>c\<close> and whose first loop made \<open>k\<close>
  draws (lines 49 to 58).
\<close>

definition paths_con_aux ::
  "real \<Rightarrow> real \<Rightarrow> real \<Rightarrow> real \<Rightarrow> int \<Rightarrow> int \<Rightarrow> (nat \<Rightarrow> real) \<Rightarrow> real list list \<times> nat" where
  "paths_con_aux S r sigma T Nsteps Nopti Z =
     (let dt = T / real_of_int Nsteps;
          paths_1 = (zeros (nat (Nsteps + 1)) (nat Nopti))[0 := replicate (nat Nopti) S]
      in con_loop dt r sigma Z (nat Nsteps) (nat Nopti) (paths_1, 0))"

definition paths_con_coeff ::
  "real \<Rightarrow> real \<Rightarrow> real \<Rightarrow> real \<Rightarrow> real \<Rightarrow> real \<Rightarrow> int \<Rightarrow> int \<Rightarrow> (nat \<Rightarrow> real) \<Rightarrow> real" where
  "paths_con_coeff K option S r sigma T Nsteps Nopti Z =
     control_coeff K option S r sigma T (fst (paths_con_aux S r sigma T Nsteps Nopti Z))"

definition paths_con_pricing ::
  "real \<Rightarrow> real \<Rightarrow> real \<Rightarrow> real \<Rightarrow> real \<Rightarrow> real \<Rightarrow> real \<Rightarrow> int \<Rightarrow> int \<Rightarrow> (nat \<Rightarrow> real) \<Rightarrow> nat \<Rightarrow>
   real list list \<times> real" where
  "paths_con_pricing c K option S r sigma T Nsteps Nsim Z k =
     (let dt = T / real_of_int Nsteps;
          paths_2 = (zeros (nat (Nsteps + 1)) (nat Nsim))[0 := replicate (nat Nsim) S];
          paths_2' = fst (con_loop dt r sigma Z (nat Nsteps) (nat Nsim) (paths_2, k))
      in (paths_2', control_mean c K option S r T paths_2'))"

text \<open>
  \<^verbatim>\<open>paths_con\<close>. The failures are those of \<^verbatim>\<open>paths_anti\<close>, in the order of the
  statements: both arrays are allocated and filled before the first loop. The second
  loop goes on drawing where the first stopped.
\<close>

definition paths_con ::
  "real \<Rightarrow> real \<Rightarrow> real \<Rightarrow> real \<Rightarrow> real \<Rightarrow> real \<Rightarrow> int \<Rightarrow> int \<Rightarrow> int \<Rightarrow> (nat \<Rightarrow> real) \<Rightarrow>
   py_error + (real list list \<times> real)" where
  "paths_con K option S r sigma T Nsteps Nsim Nopti Z =
     (if Nsteps = 0 then Inl ZeroDivisionError
      else if Nsteps + 1 < 0 \<or> Nopti < 0 then Inl ValueError
      else if Nsteps + 1 = 0 then Inl IndexError
      else if Nsim < 0 then Inl ValueError
      else
        let c = paths_con_coeff K option S r sigma T Nsteps Nopti Z;
            k = snd (paths_con_aux S r sigma T Nsteps Nopti Z)
        in Inr (paths_con_pricing c K option S r sigma T Nsteps Nsim Z k))"

text \<open>
  The coefficient of the specification, written from its words to be compared with the
  code: \<open>c = - Cov(S_T, payoff) / Var(S_T)\<close> with the sample covariance of the
  terminal prices and the payoffs of the auxiliary paths and the closed-form variance.
\<close>

definition spec_control_coeff ::
  "real \<Rightarrow> real \<Rightarrow> real \<Rightarrow> real \<Rightarrow> real \<Rightarrow> real \<Rightarrow> real list list \<Rightarrow> real" where
  "spec_control_coeff K option S r sigma T paths_1 =
     - np_cov_entry [last paths_1, payoffs_of K option paths_1] 0 1
       / (S ^ 2 * exp (2 * r * T) * (exp (T * sigma ^ 2) - 1))"

section \<open>Proofs for the lattice pricer\<close>

subsection \<open>One row of the grid\<close>

lemma set2_twice: "set2 (set2 m i j a) i j b = set2 m i j b"
  by (cases "i < length m") (simp_all add: set2_def list_update_beyond)

lemma set2_update: "set2 (m[i := row]) i j v = m[i := row[j := v]]"
  by (cases "i < length m") (simp_all add: set2_def list_update_beyond)

lemma terminal_node_eq:
  "terminal_node tree N strike bt B ib ic j ov
   = set2 ov N j (if knocked ib bt B (tree ! N ! j) then 0 else payoff ic strike (tree ! N ! j))"
  by (simp add: terminal_node_def Let_def set2_twice payoff_def)

lemma interior_node_eq:
  "interior_node tree dt strike bt B ib berm ic i j ov
   = set2 ov i j
       (let cont = exp (- (tree ! i ! j) * dt)
                   * (1 / 2 * (ov ! (i + 1) ! (j + 1)) + (1 - 1 / 2) * (ov ! (i + 1) ! j))
        in if knocked ib bt B (tree ! i ! j) then 0
           else if berm then max cont (payoff ic strike (tree ! i ! j)) else cont)"
  by (simp add: interior_node_def Let_def set2_twice payoff_def)

lemma row_fold:
  assumes i: "i < length ov"
    and f: "\<And>ov' j. j < n \<Longrightarrow> ov' ! Suc i = ov ! Suc i \<Longrightarrow> f j ov' = set2 ov' i j (g j)"
    and n: "n \<le> length (ov ! i)"
  shows "fold f [0..<n] ov = ov[i := map g [0..<n] @ drop n (ov ! i)]"
  using f n
proof (induction n)
  case 0
  then show ?case by simp
next
  case (Suc n)
  let ?X = "map g [0..<n] @ drop n (ov ! i)"
  have IH: "fold f [0..<n] ov = ov[i := ?X]"
    using Suc by simp
  have row: "(ov[i := ?X]) ! Suc i = ov ! Suc i"
    by simp
  have "fold f [0..<Suc n] ov = f n (ov[i := ?X])"
    by (simp add: IH)
  also have "\<dots> = set2 (ov[i := ?X]) i n (g n)"
    using Suc.prems(1) [of n "ov[i := ?X]"] row by simp
  also have "\<dots> = ov[i := ?X[n := g n]]"
    by (rule set2_update)
  also have "?X[n := g n] = map g [0..<Suc n] @ drop (Suc n) (ov ! i)"
  proof -
    have "n < length (ov ! i)" using Suc.prems(2) by simp
    then have "drop n (ov ! i) = (ov ! i) ! n # drop (Suc n) (ov ! i)"
      by (simp add: Cons_nth_drop_Suc)
    then show ?thesis
      by (simp add: list_update_append)
  qed
  finally show ?case .
qed

subsection \<open>The two loops compute the node values\<close>

lemma grid_ok_zeros: "grid_ok N (zeros (N + 1) (N + 1))"
  by (simp add: grid_ok_def zeros_def del: replicate_Suc)

lemma terminal_fold:
  assumes ok: "grid_ok N ov"
    and tree: "\<And>j. j \<le> N \<Longrightarrow> tree ! N ! j = rt N j"
  shows "grid_done rt dt strike (knocked ib bt B) berm ic N 0
           (fold (terminal_node tree N strike bt B ib ic) [0..<N + 1] ov)"
proof -
  let ?g = "\<lambda>j. if knocked ib bt B (tree ! N ! j) then 0 else payoff ic strike (tree ! N ! j)"
  have len: "length ov = N + 1" and row: "length (ov ! N) = N + 1"
    and rows: "\<And>k. k \<le> N \<Longrightarrow> length (ov ! k) = N + 1"
    using ok by (simp_all add: grid_ok_def)
  have "fold (terminal_node tree N strike bt B ib ic) [0..<N + 1] ov
        = ov[N := map ?g [0..<N + 1] @ drop (N + 1) (ov ! N)]"
    by (rule row_fold) (simp_all add: len row terminal_node_eq)
  then have eq: "fold (terminal_node tree N strike bt B ib ic) [0..<N + 1] ov
        = ov[N := map ?g [0..<N + 1]]"
    using row by simp
  have ok': "grid_ok N (ov[N := map ?g [0..<N + 1]])"
    using len rows by (simp add: grid_ok_def nth_list_update)
  have vals: "(ov[N := map ?g [0..<N + 1]]) ! i ! j
              = lattice_value rt dt strike (knocked ib bt B) berm ic N (N - i) j"
    if "N - 0 \<le> i" "i \<le> N" "j \<le> i" for i j
  proof -
    have iN: "i = N" using that by simp
    have jN: "j < N + 1" using that by simp
    have "(ov[N := map ?g [0..<N + 1]]) ! N ! j = ?g j"
      using len jN by (simp del: upt_Suc)
    then show ?thesis
      using iN tree [of j] jN by simp
  qed
  show ?thesis
    unfolding eq grid_done_def using ok' vals by blast
qed

lemma interior_fold:
  assumes dn: "grid_done rt dt strike (knocked ib bt B) berm ic N d ov"
    and d: "Suc d \<le> N"
    and tree: "\<And>j. j \<le> N - Suc d \<Longrightarrow> tree ! (N - Suc d) ! j = rt (N - Suc d) j"
  shows "grid_done rt dt strike (knocked ib bt B) berm ic N (Suc d)
           (fold (interior_node tree dt strike bt B ib berm ic (N - Suc d)) [0..<N - Suc d + 1] ov)"
proof -
  let ?i = "N - Suc d"
  let ?g = "\<lambda>j. let cont = exp (- (tree ! ?i ! j) * dt)
                   * (1 / 2 * (ov ! (?i + 1) ! (j + 1)) + (1 - 1 / 2) * (ov ! (?i + 1) ! j))
        in if knocked ib bt B (tree ! ?i ! j) then 0
           else if berm then max cont (payoff ic strike (tree ! ?i ! j)) else cont"
  have ok: "grid_ok N ov" using dn by (simp add: grid_done_def)
  have len: "length ov = N + 1"
    and rows: "\<And>k. k \<le> N \<Longrightarrow> length (ov ! k) = N + 1"
    using ok by (simp_all add: grid_ok_def)
  have old: "ov ! i ! j = lattice_value rt dt strike (knocked ib bt B) berm ic N (N - i) j"
    if "N - d \<le> i" "i \<le> N" "j \<le> i" for i j
    using dn that by (simp add: grid_done_def)
  let ?X = "map ?g [0..<?i + 1] @ drop (?i + 1) (ov ! ?i)"
  have eq: "fold (interior_node tree dt strike bt B ib berm ic ?i) [0..<?i + 1] ov = ov[?i := ?X]"
  proof (rule row_fold)
    show "?i < length ov" using len d by simp
    show "?i + 1 \<le> length (ov ! ?i)" using rows [of ?i] d by simp
    show "interior_node tree dt strike bt B ib berm ic ?i j ov' = set2 ov' ?i j (?g j)"
      if "j < ?i + 1" "ov' ! Suc ?i = ov ! Suc ?i" for ov' j
      using that(2) by (simp add: interior_node_eq)
  qed
  have lenX: "length ?X = N + 1"
    using rows [of ?i] d by simp
  have ok': "grid_ok N (ov[?i := ?X])"
    unfolding grid_ok_def using len rows lenX by (simp add: nth_list_update)
  have vals: "(ov[?i := ?X]) ! i ! j
              = lattice_value rt dt strike (knocked ib bt B) berm ic N (N - i) j"
    if "N - Suc d \<le> i" "i \<le> N" "j \<le> i" for i j
  proof (cases "i = ?i")
    case False
    then have "N - d \<le> i" using that d by simp
    then show ?thesis using old [of i j] that False by simp
  next
    case True
    have j: "j < ?i + 1" using that True by simp
    have "(ov[?i := ?X]) ! ?i ! j = ?g j"
      using len d j by (simp add: nth_append Let_def del: upt_Suc)
    moreover have "N - ?i = Suc d" using d by simp
    moreover have "ov ! (?i + 1) ! (j + 1)
                   = lattice_value rt dt strike (knocked ib bt B) berm ic N d (j + 1)"
      using old [of "?i + 1" "j + 1"] d j by (simp add: Suc_diff_Suc)
    moreover have "ov ! (?i + 1) ! j
                   = lattice_value rt dt strike (knocked ib bt B) berm ic N d j"
      using old [of "?i + 1" j] d j by (simp add: Suc_diff_Suc)
    moreover have "tree ! ?i ! j = rt ?i j"
      using tree [of j] j by simp
    ultimately show ?thesis
      using True by (simp add: Let_def)
  qed
  show ?thesis
    unfolding eq grid_done_def using ok' vals by blast
qed

lemma backward_fold:
  assumes dn: "grid_done rt dt strike (knocked ib bt B) berm ic N 0 ov"
    and tree: "\<And>i j. i \<le> N \<Longrightarrow> j \<le> i \<Longrightarrow> tree ! i ! j = rt i j"
    and d: "d \<le> N"
  shows "grid_done rt dt strike (knocked ib bt B) berm ic N d
           (fold (\<lambda>i. fold (interior_node tree dt strike bt B ib berm ic i) [0..<i + 1])
                 (rev [N - d..<N]) ov)"
  using d
proof (induction d)
  case 0
  then show ?case using dn by simp
next
  case (Suc d)
  let ?F = "\<lambda>i. fold (interior_node tree dt strike bt B ib berm ic i) [0..<i + 1]"
  have "[N - Suc d..<N] = (N - Suc d) # [N - d..<N]"
    using Suc.prems by (simp add: upt_conv_Cons Suc_diff_Suc)
  then have "rev [N - Suc d..<N] = rev [N - d..<N] @ [N - Suc d]"
    by simp
  then have eq: "fold ?F (rev [N - Suc d..<N]) ov
             = fold (interior_node tree dt strike bt B ib berm ic (N - Suc d)) [0..<N - Suc d + 1]
                 (fold ?F (rev [N - d..<N]) ov)"
    by (simp only: fold_append fold_Cons fold_Nil comp_apply id_apply)
  have prev: "grid_done rt dt strike (knocked ib bt B) berm ic N d (fold ?F (rev [N - d..<N]) ov)"
    by (rule Suc.IH) (use Suc.prems in arith)
  have step: "grid_done rt dt strike (knocked ib bt B) berm ic N (Suc d)
           (fold (interior_node tree dt strike bt B ib berm ic (N - Suc d)) [0..<N - Suc d + 1]
                 (fold ?F (rev [N - d..<N]) ov))"
    by (rule interior_fold [OF prev Suc.prems]) (rule tree, use Suc.prems in simp_all)
  show ?case
    unfolding eq by (rule step)
qed

lemma build_rate_tree_ok:
  assumes "1 \<le> N"
  shows "build_rate_tree r0 a sigma T N
         = Inr (map (\<lambda>i. map (node_rate r0 (sigma * sqrt (T / real_of_int N)) i) [0..<i + 1])
                    [0..<nat (N + 1)],
                T / real_of_int N, sigma * sqrt (T / real_of_int N))"
  using assms by (simp add: build_rate_tree_def Let_def node_rate_def)

lemma tree_nth:
  assumes "i \<le> n" "j \<le> i"
  shows "map (\<lambda>i. map (rt i) [0..<i + 1]) [0..<n + 1] ! i ! j = rt i j"
proof -
  have "map (\<lambda>i. map (rt i) [0..<i + 1]) [0..<n + 1] ! i = map (rt i) [0..<i + 1]"
    using assms(1) by (simp del: upt_Suc)
  moreover have "map (rt i) [0..<i + 1] ! j = rt i j"
    using assms(2) by (simp del: upt_Suc)
  ultimately show ?thesis by simp
qed

lemma price_option_eq:
  assumes N: "1 \<le> N"
  shows "price_option r0 a sigma T N option_type strike bt B ib berm ic
         = Inr (lattice_value (node_rate r0 (sigma * sqrt (T / real_of_int N))) (T / real_of_int N)
                  strike (knocked ib bt B) berm ic (nat N) (nat N) 0)"
proof -
  let ?n = "nat N"
  let ?dt = "T / real_of_int N"
  let ?rt = "node_rate r0 (sigma * sqrt ?dt)"
  let ?tree = "map (\<lambda>i. map (?rt i) [0..<i + 1]) [0..<?n + 1]"
  let ?F = "\<lambda>i. fold (interior_node ?tree ?dt strike bt B ib berm ic i) [0..<i + 1]"
  let ?ov1 = "fold (terminal_node ?tree ?n strike bt B ib ic) [0..<?n + 1] (zeros (?n + 1) (?n + 1))"
  have n1: "nat (N + 1) = ?n + 1" using N by simp
  have tree: "?tree ! i ! j = ?rt i j" if "i \<le> ?n" "j \<le> i" for i j
    using that by (rule tree_nth)
  have t: "grid_done ?rt ?dt strike (knocked ib bt B) berm ic ?n 0 ?ov1"
    by (rule terminal_fold [OF grid_ok_zeros]) (rule tree, simp_all)
  have "grid_done ?rt ?dt strike (knocked ib bt B) berm ic ?n ?n (fold ?F (rev [?n - ?n..<?n]) ?ov1)"
    by (rule backward_fold [OF t]) (rule tree, simp_all)
  then have root: "fold ?F (rev [0..<?n]) ?ov1 ! 0 ! 0
                   = lattice_value ?rt ?dt strike (knocked ib bt B) berm ic ?n ?n 0"
    by (simp add: grid_done_def del: upt_Suc)
  have "price_option r0 a sigma T N option_type strike bt B ib berm ic
        = Inr (fold ?F (rev [0..<?n]) ?ov1 ! 0 ! 0)"
    unfolding price_option_def build_rate_tree_ok [OF N] n1 using N
    by (simp add: Let_def del: upt_Suc)
  then show ?thesis
    by (simp only: root)
qed

lemma payoff_nonneg: "0 \<le> payoff ic strike r"
  by (simp add: payoff_def)

lemma lattice_value_nonneg: "0 \<le> lattice_value rt dt strike kn berm ic N d j"
proof (induction d arbitrary: j)
  case 0
  then show ?case by (simp add: payoff_nonneg)
next
  case (Suc d)
  define c where "c = exp (- rt (N - Suc d) j * dt)
           * (1 / 2 * lattice_value rt dt strike kn berm ic N d (j + 1)
              + (1 - 1 / 2) * lattice_value rt dt strike kn berm ic N d j)"
  have eq: "lattice_value rt dt strike kn berm ic N (Suc d) j
            = (if kn (rt (N - Suc d) j) then 0
               else if berm then max c (payoff ic strike (rt (N - Suc d) j)) else c)"
    by (simp add: c_def Let_def)
  have "0 \<le> c"
    unfolding c_def using Suc [of "j + 1"] Suc [of j] by simp
  then show ?case
    unfolding eq using payoff_nonneg [of ic strike "rt (N - Suc d) j"] by (simp add: max_def)
qed

lemma lattice_value_bermudan:
  "lattice_value rt dt strike kn False ic N d j \<le> lattice_value rt dt strike kn True ic N d j"
proof (induction d arbitrary: j)
  case 0
  then show ?case by simp
next
  case (Suc d)
  define e where "e = exp (- rt (N - Suc d) j * dt)"
  define ce where "ce = e * (1 / 2 * lattice_value rt dt strike kn False ic N d (j + 1)
          + (1 - 1 / 2) * lattice_value rt dt strike kn False ic N d j)"
  define cb where "cb = e * (1 / 2 * lattice_value rt dt strike kn True ic N d (j + 1)
          + (1 - 1 / 2) * lattice_value rt dt strike kn True ic N d j)"
  have eqe: "lattice_value rt dt strike kn False ic N (Suc d) j
             = (if kn (rt (N - Suc d) j) then 0 else ce)"
    by (simp add: ce_def e_def Let_def)
  have eqb: "lattice_value rt dt strike kn True ic N (Suc d) j
             = (if kn (rt (N - Suc d) j) then 0 else max cb (payoff ic strike (rt (N - Suc d) j)))"
    by (simp add: cb_def e_def Let_def)
  have "0 \<le> e" by (simp add: e_def)
  moreover have "1 / 2 * lattice_value rt dt strike kn False ic N d (j + 1)
          + (1 - 1 / 2) * lattice_value rt dt strike kn False ic N d j
        \<le> 1 / 2 * lattice_value rt dt strike kn True ic N d (j + 1)
          + (1 - 1 / 2) * lattice_value rt dt strike kn True ic N d j"
    using Suc [of "j + 1"] Suc [of j] by simp
  ultimately have "ce \<le> cb"
    unfolding ce_def cb_def by (rule mult_left_mono [rotated])
  then show ?case
    unfolding eqe eqb by (simp add: max_def)
qed

lemma lattice_value_barrier:
  "lattice_value rt dt strike kn berm ic N d j
   \<le> lattice_value rt dt strike (\<lambda>r. False) berm ic N d j"
proof (induction d arbitrary: j)
  case 0
  then show ?case by (simp add: payoff_nonneg)
next
  case (Suc d)
  define e where "e = exp (- rt (N - Suc d) j * dt)"
  define ck where "ck = e * (1 / 2 * lattice_value rt dt strike kn berm ic N d (j + 1)
          + (1 - 1 / 2) * lattice_value rt dt strike kn berm ic N d j)"
  define cn where "cn = e * (1 / 2 * lattice_value rt dt strike (\<lambda>r. False) berm ic N d (j + 1)
          + (1 - 1 / 2) * lattice_value rt dt strike (\<lambda>r. False) berm ic N d j)"
  define v where "v = payoff ic strike (rt (N - Suc d) j)"
  have eqk: "lattice_value rt dt strike kn berm ic N (Suc d) j
             = (if kn (rt (N - Suc d) j) then 0 else if berm then max ck v else ck)"
    by (simp add: ck_def e_def v_def Let_def)
  have eqn: "lattice_value rt dt strike (\<lambda>r. False) berm ic N (Suc d) j
             = (if berm then max cn v else cn)"
    by (simp add: cn_def e_def v_def Let_def)
  have "0 \<le> e" by (simp add: e_def)
  moreover have "1 / 2 * lattice_value rt dt strike kn berm ic N d (j + 1)
          + (1 - 1 / 2) * lattice_value rt dt strike kn berm ic N d j
        \<le> 1 / 2 * lattice_value rt dt strike (\<lambda>r. False) berm ic N d (j + 1)
          + (1 - 1 / 2) * lattice_value rt dt strike (\<lambda>r. False) berm ic N d j"
    using Suc [of "j + 1"] Suc [of j] by simp
  ultimately have le: "ck \<le> cn"
    unfolding ck_def cn_def by (rule mult_left_mono [rotated])
  have "0 \<le> lattice_value rt dt strike (\<lambda>r. False) berm ic N (Suc d) j"
    by (rule lattice_value_nonneg)
  then have nn: "0 \<le> (if berm then max cn v else cn)"
    by (simp only: eqn)
  show ?case
    unfolding eqk eqn using le nn by (auto simp: max_def split: if_splits)
qed

lemma knocked_no_barrier: "knocked False bt B = (\<lambda>r. False)"
  by (simp add: knocked_def fun_eq_iff)

lemma price_option_raises:
  "N < 1 \<Longrightarrow> price_option r0 a sigma T N option_type strike bt B ib berm ic
     = Inl (if N = 0 then ZeroDivisionError else if N = - 1 then IndexError else ValueError)"
  by (simp add: price_option_def build_rate_tree_def Let_def)

subsection \<open>The claims about the lattice pricer\<close>

text \<open>
  C4, as stated: the lattice builder has no error conditions for any \<open>N \<ge> 0\<close>, and
  \<open>N = 0\<close> yields a lattice of a single terminal node. The code divides \<open>T\<close> by
  \<open>N\<close> first, so at \<open>N = 0\<close> both the builder and the pricer raise.
\<close>

theorem build_rate_tree_zero_steps:
  "build_rate_tree (3 / 100) (1 / 10) (1 / 100) 1 0 = Inl ZeroDivisionError
   \<and> price_option (3 / 100) (1 / 10) (1 / 100) 1 0 ''European'' (3 / 100) None 0 False False True
     = Inl ZeroDivisionError"
  by (simp add: build_rate_tree_def price_option_def)

text \<open>
  C4, amended: for every \<open>N \<ge> 1\<close> the lattice builder does not fail and yields
  \<open>N + 1\<close> levels, level \<open>i\<close> holding \<open>i + 1\<close> nodes, and the pricer returns a
  price.
\<close>

theorem build_rate_tree_total:
  assumes "1 \<le> N"
  shows "\<exists>tree dt dx.
           build_rate_tree r0 a sigma T N = Inr (tree, dt, dx)
           \<and> length tree = nat N + 1
           \<and> (\<forall>i \<le> nat N. length (tree ! i) = i + 1)
           \<and> (\<exists>p. price_option r0 a sigma T N option_type strike barrier_type barrier
                     is_barrier is_bermudan is_call = Inr p)"
proof -
  have n1: "nat (N + 1) = nat N + 1" using assms by simp
  let ?tree = "map (\<lambda>i. map (node_rate r0 (sigma * sqrt (T / real_of_int N)) i) [0..<i + 1])
                   [0..<nat (N + 1)]"
  have "length ?tree = nat N + 1"
    by (simp add: n1)
  moreover have "length (?tree ! i) = i + 1" if "i \<le> nat N" for i
    using that unfolding n1 by (simp del: upt_Suc)
  ultimately show ?thesis
    using build_rate_tree_ok [OF assms] price_option_eq [OF assms] by blast
qed

theorem build_rate_tree_total_witness:
  "(1::int) \<le> 2 \<and>
   (\<exists>tree dt dx.
      build_rate_tree (3 / 100) (1 / 10) (1 / 100) 1 2 = Inr (tree, dt, dx)
      \<and> length tree = nat 2 + 1
      \<and> (\<forall>i \<le> nat 2. length (tree ! i) = i + 1)
      \<and> (\<exists>p. price_option (3 / 100) (1 / 10) (1 / 100) 1 2 ''European'' (3 / 100) None 0
                 False False True = Inr p))"
  using build_rate_tree_total [of 2 "3 / 100" "1 / 10" "1 / 100" 1 "''European''" "3 / 100" None 0
      False False True]
  by simp

text \<open>
  C5: for every parameter combination with \<open>N \<ge> 1\<close> (any strike, barrier
  specification, exercise style, call or put) the pricer returns a price, and the price
  is not negative.
\<close>

theorem price_option_nonneg:
  assumes "1 \<le> N"
  shows "\<exists>p. price_option r0 a sigma T N option_type strike barrier_type barrier
                is_barrier is_bermudan is_call = Inr p \<and> 0 \<le> p"
  using price_option_eq [OF assms] lattice_value_nonneg by simp

theorem price_option_nonneg_witness:
  "(1::int) \<le> 2 \<and>
   (\<exists>p. price_option (3 / 100) (1 / 10) (1 / 100) 1 2 ''Bermudan'' (3 / 100) (Some ''Up Out'')
           (4 / 100) True True False = Inr p \<and> 0 \<le> p)"
  using price_option_nonneg [of 2 "3 / 100" "1 / 10" "1 / 100" 1 "''Bermudan''" "3 / 100"
      "Some ''Up Out''" "4 / 100" True True False]
  by simp

text \<open>
  C6: with all other parameters equal, the price returned with the Bermudan exercise
  style is at least the price returned with the European style.
\<close>

theorem bermudan_ge_european:
  assumes "1 \<le> N"
  shows "\<exists>pe pb.
           price_option r0 a sigma T N ot_e strike barrier_type barrier is_barrier False is_call = Inr pe
           \<and> price_option r0 a sigma T N ot_b strike barrier_type barrier is_barrier True is_call = Inr pb
           \<and> pe \<le> pb"
  using price_option_eq [OF assms] lattice_value_bermudan by simp

theorem bermudan_ge_european_witness:
  "(1::int) \<le> 2 \<and>
   (\<exists>pe pb.
      price_option (3 / 100) (1 / 10) (1 / 100) 1 2 ''European'' (3 / 100) None 0 False False False
        = Inr pe
      \<and> price_option (3 / 100) (1 / 10) (1 / 100) 1 2 ''Bermudan'' (3 / 100) None 0 False True False
        = Inr pb
      \<and> pe \<le> pb)"
  using bermudan_ge_european [of 2 "3 / 100" "1 / 10" "1 / 100" 1 "''European''" "3 / 100"
      None 0 False False "''Bermudan''"]
  by simp

text \<open>
  C7: with all other parameters equal, the price returned with an active barrier, of any
  type and at any level, is at most the price returned with no barrier.
\<close>

theorem barrier_le_no_barrier:
  assumes "1 \<le> N"
  shows "\<exists>pb pn.
           price_option r0 a sigma T N option_type strike barrier_type barrier True is_bermudan is_call
             = Inr pb
           \<and> price_option r0 a sigma T N option_type strike barrier_type' barrier' False is_bermudan is_call
             = Inr pn
           \<and> pb \<le> pn"
  using price_option_eq [OF assms] lattice_value_barrier
  by (simp add: knocked_no_barrier)

theorem barrier_le_no_barrier_witness:
  "(1::int) \<le> 2 \<and>
   (\<exists>pb pn.
      price_option (3 / 100) (1 / 10) (1 / 100) 1 2 ''European'' (3 / 100) (Some ''Down Out'')
         (2 / 100) True False True = Inr pb
      \<and> price_option (3 / 100) (1 / 10) (1 / 100) 1 2 ''European'' (3 / 100) None
         (2 / 100) False False True = Inr pn
      \<and> pb \<le> pn)"
  using barrier_le_no_barrier [of 2 "3 / 100" "1 / 10" "1 / 100" 1 "''European''" "3 / 100"
      "Some ''Down Out''" "2 / 100" False True None "2 / 100"]
  by simp

text \<open>
  C9: the mean-reversion parameter \<open>a\<close> has no influence on the result of the lattice
  builder nor on that of the pricer.
\<close>

theorem mean_reversion_unused:
  "build_rate_tree r0 a1 sigma T N = build_rate_tree r0 a2 sigma T N
   \<and> price_option r0 a1 sigma T N option_type strike barrier_type barrier is_barrier is_bermudan is_call
     = price_option r0 a2 sigma T N option_type strike barrier_type barrier is_barrier is_bermudan is_call"
  by (simp add: build_rate_tree_def price_option_def)

section \<open>Proofs for the Monte Carlo pricer\<close>

subsection \<open>Row 0 and the shape of a path matrix are kept by the loops\<close>

lemma set2_row0: "i \<noteq> 0 \<Longrightarrow> set2 m i j v ! 0 = m ! 0"
  by (simp add: set2_def)

lemma shape_set2: "shape rows cols m \<Longrightarrow> shape rows cols (set2 m i j v)"
  by (cases "i < length m") (auto simp: shape_def set2_def nth_list_update list_update_beyond)

lemma shape_initial:
  "0 < rows \<Longrightarrow> shape rows cols ((zeros rows cols)[0 := replicate cols S])"
  by (auto simp: shape_def zeros_def nth_list_update)

lemma initial_row0: "0 < rows \<Longrightarrow> (zeros rows cols)[0 := replicate cols S] ! 0 = replicate cols S"
  by (simp add: zeros_def)

lemma con_step_row0: "fst (con_step dt r sigma Z j i st) ! 0 = fst st ! 0"
  by (cases st) (simp add: con_step_def Let_def set2_row0)


lemma anti_step_row0: "fst (anti_step dt r sigma Z n j i st) ! 0 = fst st ! 0"
  by (cases st) (simp add: anti_step_def Let_def set2_row0)

lemma anti_step_shape:
  "shape rows cols (fst st) \<Longrightarrow> shape rows cols (fst (anti_step dt r sigma Z n j i st))"
  by (cases st) (simp add: anti_step_def Let_def shape_set2)

lemma nested_fold_invariant:
  assumes "P st" and "\<And>j i st. P st \<Longrightarrow> P (f j i st)"
  shows "P (fold (\<lambda>j. fold (f j) (is j)) js st)"
proof (rule fold_invariant [where Q = "\<lambda>_. True" and P = P])
  show "P st" by fact
  show "P (fold (f j) (is j) s)" if "P s" for j s
    by (rule fold_invariant [where Q = "\<lambda>_. True" and P = P]) (simp_all add: that assms(2))
qed simp

lemma con_loop_row0: "fst (con_loop dt r sigma Z Nsteps cols st) ! 0 = fst st ! 0"
  unfolding con_loop_def
  by (rule nested_fold_invariant [where P = "\<lambda>s. fst s ! 0 = fst st ! 0"])
     (simp_all add: con_step_row0)


lemma anti_loop_row0:
  "fst (fold (\<lambda>j. fold (anti_step dt r sigma Z n j) (is j)) js st) ! 0 = fst st ! 0"
  by (rule nested_fold_invariant [where P = "\<lambda>s. fst s ! 0 = fst st ! 0"])
     (simp_all add: anti_step_row0)

lemma anti_loop_shape:
  "shape rows cols (fst st) \<Longrightarrow>
   shape rows cols (fst (fold (\<lambda>j. fold (anti_step dt r sigma Z n j) (is j)) js st))"
  by (rule nested_fold_invariant [where P = "\<lambda>s. shape rows cols (fst s)"])
     (simp_all add: anti_step_shape)

lemma paths_anti_ok:
  assumes "1 \<le> Nsteps" "0 \<le> Nsim"
  shows "paths_anti K option S r sigma T Nsteps Nsim Z
         = Inr (fst (fold (\<lambda>j. fold (anti_step (T / real_of_int Nsteps) r sigma Z (nat Nsim) j)
                                 [0..<nat Nsteps])
                          (anti_range Nsim)
                          ((zeros (nat (Nsteps + 1)) (nat Nsim))[0 := replicate (nat Nsim) S], 0)),
                exp (- r * T) * np_mean (payoffs_of K option
                  (fst (fold (\<lambda>j. fold (anti_step (T / real_of_int Nsteps) r sigma Z (nat Nsim) j)
                                 [0..<nat Nsteps])
                          (anti_range Nsim)
                          ((zeros (nat (Nsteps + 1)) (nat Nsim))[0 := replicate (nat Nsim) S], 0)))))"
  using assms by (simp add: paths_anti_def Let_def)

lemma paths_con_ok:
  assumes "1 \<le> Nsteps" "0 \<le> Nsim" "0 \<le> Nopti"
  shows "paths_con K option S r sigma T Nsteps Nsim Nopti Z
         = Inr (paths_con_pricing (paths_con_coeff K option S r sigma T Nsteps Nopti Z)
                  K option S r sigma T Nsteps Nsim Z
                  (snd (paths_con_aux S r sigma T Nsteps Nopti Z)))"
  using assms by (simp add: paths_con_def Let_def)

subsection \<open>Column 0 of the antithetic simulator\<close>

lemma set2_col0_other: "j \<noteq> 0 \<Longrightarrow> set2 m i j v ! a ! 0 = m ! a ! 0"
  by (cases "i < length m") (auto simp: set2_def nth_list_update list_update_beyond)

lemma set2_other_row: "a \<noteq> i \<Longrightarrow> set2 m i j v ! a = m ! a"
  by (simp add: set2_def)

lemma set2_same: "shape rows cols m \<Longrightarrow> i < rows \<Longrightarrow> j < cols \<Longrightarrow> set2 m i j v ! i ! j = v"
  by (simp add: set2_def shape_def)

lemma col_index_zero: "col_index n (- int 0) = 0"
  by (simp add: col_index_def)

lemma col_index_mirror: "0 < j \<Longrightarrow> j < n \<Longrightarrow> col_index n (- int j) = n - j"
  by (simp add: col_index_def nat_diff_distrib')

text \<open>The iteration \<open>j = 0\<close>: both writes of a time step go to column 0, the second wins.\<close>

lemma anti_first_column:
  assumes sh: "shape (s + 1) n P0" and n: "0 < n" and m: "m \<le> s"
  shows "snd (fold (anti_step dt r sigma Z n 0) [0..<m] (P0, 0)) = m
       \<and> shape (s + 1) n (fst (fold (anti_step dt r sigma Z n 0) [0..<m] (P0, 0)))
       \<and> (\<forall>i \<le> m. fst (fold (anti_step dt r sigma Z n 0) [0..<m] (P0, 0)) ! i ! 0
             = P0 ! 0 ! 0 * (\<Prod>k<i. exp (dt * (r - 1 / 2 * sigma ^ 2) - sigma * sqrt dt * Z k)))"
  using m
proof (induction m)
  case 0
  then show ?case using sh by simp
next
  case (Suc m)
  let ?g = "\<lambda>k. exp (dt * (r - 1 / 2 * sigma ^ 2) - sigma * sqrt dt * Z k)"
  obtain P where st: "fold (anti_step dt r sigma Z n 0) [0..<m] (P0, 0) = (P, m)"
    using Suc by (metis prod.collapse Suc_leD)
  have shP: "shape (s + 1) n P"
    and colP: "\<And>i. i \<le> m \<Longrightarrow> P ! i ! 0 = P0 ! 0 ! 0 * prod ?g {..<i}"
    using Suc st by simp_all
  define P1 where "P1 = set2 P (m + 1) 0
      (P ! m ! 0 * exp (dt * (r - 1 / 2 * sigma ^ 2) + sigma * sqrt dt * Z m))"
  define P2 where "P2 = set2 P1 (m + 1) 0 (P1 ! m ! 0 * ?g m)"
  have step: "fold (anti_step dt r sigma Z n 0) [0..<Suc m] (P0, 0) = (P2, Suc m)"
    by (simp add: st anti_step_def Let_def col_index_def P1_def P2_def)
  have shP1: "shape (s + 1) n P1" unfolding P1_def by (rule shape_set2 [OF shP])
  have shP2: "shape (s + 1) n P2" unfolding P2_def by (rule shape_set2 [OF shP1])
  have P1m: "P1 ! m = P ! m"
    unfolding P1_def by (rule set2_other_row) simp
  have new: "P2 ! (m + 1) ! 0 = P ! m ! 0 * ?g m"
    unfolding P2_def using set2_same [OF shP1, of "m + 1" 0] Suc.prems n P1m by simp
  have old: "P2 ! i = P ! i" if "i \<le> m" for i
    unfolding P2_def P1_def using that by (simp add: set2_other_row)
  have "P2 ! i ! 0 = P0 ! 0 ! 0 * prod ?g {..<i}" if "i \<le> Suc m" for i
  proof (cases "i \<le> m")
    case True
    then show ?thesis using old colP by simp
  next
    case False
    then have i: "i = m + 1" using that by simp
    show ?thesis
      unfolding i using new colP [of m] by simp
  qed
  then show ?case
    unfolding step using shP2 by simp
qed

text \<open>An iteration \<open>0 < j < n\<close> writes columns \<open>j\<close> and \<open>n - j\<close>, never column 0.\<close>

lemma anti_step_col0:
  assumes "0 < j" "j < n"
  shows "fst (anti_step dt r sigma Z n j i st) ! a ! 0 = fst st ! a ! 0"
proof -
  have "col_index n (- int j) \<noteq> 0"
    using assms by (simp add: col_index_mirror)
  then show ?thesis
    using assms(1) by (cases st) (simp add: anti_step_def Let_def set2_col0_other)
qed

lemma anti_rest_col0:
  assumes "\<And>j. j \<in> set js \<Longrightarrow> 0 < j \<and> j < n"
  shows "fst (fold (\<lambda>j. fold (anti_step dt r sigma Z n j) is) js st) ! a ! 0 = fst st ! a ! 0"
proof (rule fold_invariant [where Q = "\<lambda>j. 0 < j \<and> j < n"
      and P = "\<lambda>s. fst s ! a ! 0 = fst st ! a ! 0"])
  show "0 < j \<and> j < n" if "j \<in> set js" for j using assms that by simp
  show "fst st ! a ! 0 = fst st ! a ! 0" by simp
  show "fst (fold (anti_step dt r sigma Z n j) is s) ! a ! 0 = fst st ! a ! 0"
    if "0 < j \<and> j < n" "fst s ! a ! 0 = fst st ! a ! 0" for j s
    by (rule fold_invariant [where Q = "\<lambda>_. True" and P = "\<lambda>s. fst s ! a ! 0 = fst st ! a ! 0"])
       (use that in \<open>simp_all add: anti_step_col0\<close>)
qed

lemma anti_range_eq: "anti_range Nsim = [0..<nat Nsim]"
  by (simp add: anti_range_def)

lemma anti_range_length: "length (anti_range Nsim) = nat Nsim"
  by (simp add: anti_range_def)

subsection \<open>The coefficient of the control-variate simulator\<close>





lemma aux_paths_example:
  "fst (paths_con_aux 1 (1 / 2) 1 1 1 2 (draws_of [0, ln 2])) = [[1, 1], [1, 2]]"
  by (simp add: paths_con_aux_def con_loop_def con_step_def Let_def zeros_def set2_def
      numeral_2_eq_2 draws_of_def)

subsection \<open>The claims about the Monte Carlo pricer\<close>

text \<open>
  C1: the path-generation loop of \<^verbatim>\<open>paths_anti\<close> is claimed to run over exactly
  \<open>(Nsim + 1) div 2\<close> paired indices. The header \<^verbatim>\<open>range(Nsim+1//2)\<close> gives
  \<open>Nsim\<close> of them: with two paths the loop visits \<open>0\<close> and \<open>1\<close>, not one index,
  and the iteration \<open>j = 1\<close> advances column 1, which a loop over the single index
  \<open>0\<close> would leave at \<open>0\<close> below row 0.
\<close>

theorem paths_anti_loop_range:
  "anti_range 2 = [0, 1]
   \<and> length (anti_range 2) \<noteq> nat ((2 + 1) div 2)
   \<and> paths_anti 0 1 1 0 0 1 1 2 (draws_of []) = Inr ([[1, 1], [1, 1]], 1)"
proof -
  have r: "anti_range 2 = [0, 1]"
    by (simp add: anti_range_def upt_rec)
  have "paths_anti 0 1 1 0 0 1 1 2 (draws_of []) = Inr ([[1, 1], [1, 1]], 1)"
    by (simp add: paths_anti_def r Let_def zeros_def anti_step_def set2_def col_index_def
        payoffs_of_def np_mean_def numeral_2_eq_2 draws_of_def)
  then show ?thesis
    using r by simp
qed



text \<open>
  C3: the coefficient of \<^verbatim>\<open>paths_con\<close> is claimed to be
  \<open>- Cov(S_T, payoff) / Var(S_T)\<close>. The code reads the entry \<open>[1, 0]\<close> of the
  covariance matrix of all the rows of the auxiliary paths and the payoffs, which pairs
  the prices after one step with the constant initial prices. On two auxiliary paths of
  one step with terminal prices \<open>1\<close> and \<open>2\<close> and strike \<open>0\<close> the code computes
  \<open>0\<close>, and the formula of the claim is not \<open>0\<close>.
\<close>

theorem control_coeff_row_pairing:
  "paths_con_coeff 0 1 1 (1 / 2) 1 1 1 2 (draws_of [0, ln 2]) = 0
   \<and> spec_control_coeff 0 1 1 (1 / 2) 1 1
        (fst (paths_con_aux 1 (1 / 2) 1 1 1 2 (draws_of [0, ln 2])))
      = - (1 / 2) / (exp 1 * (exp 1 - 1))
   \<and> - (1 / 2) / (exp 1 * (exp 1 - 1)) \<noteq> (0::real)"
proof -
  have a: "paths_con_coeff 0 1 1 (1 / 2) 1 1 1 2 (draws_of [0, ln 2]) = 0"
    by (simp add: paths_con_coeff_def aux_paths_example control_coeff_def Let_def payoffs_of_def
        np_cov_entry_def np_mean_def upt_rec)
  have b: "spec_control_coeff 0 1 1 (1 / 2) 1 1 [[1, 1], [1, 2]] = - (1 / 2) / (exp 1 * (exp 1 - 1))"
    by (simp add: spec_control_coeff_def payoffs_of_def np_cov_entry_def np_mean_def Let_def upt_rec)
  have c: "- (1 / 2) / (exp 1 * (exp 1 - 1)) \<noteq> (0::real)"
    by simp
  show ?thesis
    using a b c by (simp only: aux_paths_example) simp
qed

text \<open>
  C8: the path matrices returned by \<^verbatim>\<open>paths_anti\<close> and by \<^verbatim>\<open>paths_con\<close> have
  every entry of row 0 equal to the initial price \<open>S\<close>, one entry for each of the
  \<open>Nsim\<close> paths.
\<close>

theorem row0_initial_price:
  assumes "1 \<le> Nsteps" "0 \<le> Nsim" "0 \<le> Nopti"
  shows "(\<exists>paths m. paths_anti K option S r sigma T Nsteps Nsim Z = Inr (paths, m)
            \<and> paths ! 0 = replicate (nat Nsim) S)
       \<and> (\<exists>paths m. paths_con K option S r sigma T Nsteps Nsim Nopti Z = Inr (paths, m)
            \<and> paths ! 0 = replicate (nat Nsim) S)"
proof -
  have pos: "0 < nat (Nsteps + 1)" using assms(1) by simp
  have "fst (paths_con_pricing c K option S r sigma T Nsteps Nsim Z k) ! 0 = replicate (nat Nsim) S"
    for c k
    by (simp add: paths_con_pricing_def Let_def con_loop_row0 initial_row0 [OF pos])
  then have con: "\<exists>paths m. paths_con K option S r sigma T Nsteps Nsim Nopti Z = Inr (paths, m)
            \<and> paths ! 0 = replicate (nat Nsim) S"
    unfolding paths_con_ok [OF assms] by (metis prod.collapse)
  have anti: "\<exists>paths m. paths_anti K option S r sigma T Nsteps Nsim Z = Inr (paths, m)
            \<and> paths ! 0 = replicate (nat Nsim) S"
    unfolding paths_anti_ok [OF assms(1,2)]
    by (simp add: anti_loop_row0 initial_row0 [OF pos])
  show ?thesis using anti con by blast
qed

theorem row0_initial_price_witness:
  "(1::int) \<le> 1 \<and> (0::int) \<le> 2 \<and> (0::int) \<le> 2 \<and>
   (\<exists>paths m. paths_anti 110 1 100 0 0 1 1 2 (draws_of []) = Inr (paths, m)
            \<and> paths ! 0 = replicate (nat 2) 100)
   \<and> (\<exists>paths m. paths_con 110 1 100 0 0 1 1 2 2 (draws_of []) = Inr (paths, m)
            \<and> paths ! 0 = replicate (nat 2) 100)"
  using row0_initial_price [of 1 2 2 110 1 100 0 0 1 "draws_of []"]
  by simp

text \<open>
  C10: for \<open>Nsim \<ge> 1\<close>, column 0 of the matrix returned by \<^verbatim>\<open>paths_anti\<close> is
  generated by the negated-draw branch alone: row \<open>i\<close> holds \<open>S\<close> times the product
  of the factors \<open>exp (dt * (r - sigma\<^sup>2 / 2) - sigma * sqrt dt * Z k)\<close> over the
  first \<open>i\<close> draws, those of the iteration \<open>j = 0\<close>.
\<close>

theorem paths_anti_column0:
  assumes "1 \<le> Nsteps" "1 \<le> Nsim"
  shows "\<exists>paths m. paths_anti K option S r sigma T Nsteps Nsim Z = Inr (paths, m)
           \<and> (\<forall>i \<le> nat Nsteps.
                 paths ! i ! 0
                 = S * (\<Prod>k<i. exp (T / real_of_int Nsteps * (r - 1 / 2 * sigma ^ 2)
                                       - sigma * sqrt (T / real_of_int Nsteps) * Z k)))"
proof -
  let ?dt = "T / real_of_int Nsteps"
  let ?s = "nat Nsteps" and ?n = "nat Nsim"
  let ?P0 = "(zeros (nat (Nsteps + 1)) ?n)[0 := replicate ?n S]"
  let ?F = "\<lambda>j. fold (anti_step ?dt r sigma Z ?n j) [0..<?s]"
  let ?g = "\<lambda>k. exp (?dt * (r - 1 / 2 * sigma ^ 2) - sigma * sqrt ?dt * Z k)"
  have s1: "nat (Nsteps + 1) = ?s + 1" using assms(1) by simp
  have n: "0 < ?n" using assms(2) by simp
  have sh: "shape (?s + 1) ?n ?P0"
    unfolding s1 by (rule shape_initial) simp
  have P00: "?P0 ! 0 ! 0 = S"
    using n by (simp add: s1 zeros_def)
  have range: "anti_range Nsim = 0 # [1..<?n]"
    using n by (simp add: anti_range_eq upt_conv_Cons)
  have first: "\<forall>i \<le> ?s. fst (?F 0 (?P0, 0)) ! i ! 0 = S * prod ?g {..<i}"
    using anti_first_column [OF sh n order_refl, of ?dt r sigma Z] P00 by simp
  have rest: "fst (fold ?F [1..<?n] st) ! i ! 0 = fst st ! i ! 0" for st i
    by (rule anti_rest_col0) simp
  have "fst (fold ?F (anti_range Nsim) (?P0, 0)) ! i ! 0 = fst (?F 0 (?P0, 0)) ! i ! 0" for i
    unfolding range using rest [of "?F 0 (?P0, 0)" i] by simp
  then have "\<forall>i \<le> ?s. fst (fold ?F (anti_range Nsim) (?P0, 0)) ! i ! 0 = S * prod ?g {..<i}"
    using first by simp
  then show ?thesis
    using paths_anti_ok [of Nsteps Nsim K option S r sigma T Z] assms by simp
qed

theorem paths_anti_column0_witness:
  "(1::int) \<le> 1 \<and> (1::int) \<le> 2 \<and>
   (\<exists>paths m. paths_anti 110 1 100 (1 / 2) 1 1 1 2 (draws_of [1, 1]) = Inr (paths, m)
           \<and> (\<forall>i \<le> nat 1.
                 paths ! i ! 0
                 = 100 * (\<Prod>k<i. exp (1 / real_of_int 1 * (1 / 2 - 1 / 2 * 1 ^ 2)
                                       - 1 * sqrt (1 / real_of_int 1) * draws_of [1, 1] k))))"
  using paths_anti_column0 [of 1 2 110 1 100 "1 / 2" 1 1 "draws_of [1, 1]"]
  by simp

end
